theory Spec2Isabelle
  imports Main "HOL-Library.Word" "HOL-Library.Stream"
begin

section \<open>Dev01.py: host-side driver of the DCA1000 capture board\<close>

text \<open>
  The theory embeds the three pieces of \<^verbatim>\<open>Dev01.py\<close> that carry logic: the
  construction of a command message in \<^verbatim>\<open>send_command\<close>, the header decoding in
  \<^verbatim>\<open>_read_data_packet\<close>, and the two loops of \<^verbatim>\<open>read\<close> that assemble one frame
  from the stream of data packets. Python integers are \<open>int\<close>, byte strings are lists
  of 8-bit words, a numpy \<^verbatim>\<open>uint16\<close> array is a list of 16-bit words, and an
  exception leaving a function is the left summand of its result.
\<close>

type_synonym byte = "8 word"

datatype exn = ValueError

subsection \<open>Command codes (class CMD) and the framing constants\<close>

datatype CMD =
    RESET_FPGA_CMD_CODE
  | RESET_AR_DEV_CMD_CODE
  | CONFIG_FPGA_GEN_CMD_CODE
  | CONFIG_EEPROM_CMD_CODE
  | RECORD_START_CMD_CODE
  | RECORD_STOP_CMD_CODE
  | PLAYBACK_START_CMD_CODE
  | PLAYBACK_STOP_CMD_CODE
  | SYSTEM_CONNECT_CMD_CODE
  | SYSTEM_ERROR_CMD_CODE
  | CONFIG_PACKET_DATA_CMD_CODE
  | CONFIG_DATA_MODE_AR_DEV_CMD_CODE
  | INIT_FPGA_PLAYBACK_CMD_CODE
  | READ_FPGA_VERSION_CMD_CODE

fun cmd_value :: "CMD \<Rightarrow> string" where
  "cmd_value RESET_FPGA_CMD_CODE = ''0100''"
| "cmd_value RESET_AR_DEV_CMD_CODE = ''0200''"
| "cmd_value CONFIG_FPGA_GEN_CMD_CODE = ''0300''"
| "cmd_value CONFIG_EEPROM_CMD_CODE = ''0400''"
| "cmd_value RECORD_START_CMD_CODE = ''0500''"
| "cmd_value RECORD_STOP_CMD_CODE = ''0600''"
| "cmd_value PLAYBACK_START_CMD_CODE = ''0700''"
| "cmd_value PLAYBACK_STOP_CMD_CODE = ''0800''"
| "cmd_value SYSTEM_CONNECT_CMD_CODE = ''0900''"
| "cmd_value SYSTEM_ERROR_CMD_CODE = ''0a00''"
| "cmd_value CONFIG_PACKET_DATA_CMD_CODE = ''0b00''"
| "cmd_value CONFIG_DATA_MODE_AR_DEV_CMD_CODE = ''0c00''"
| "cmd_value INIT_FPGA_PLAYBACK_CMD_CODE = ''0d00''"
| "cmd_value READ_FPGA_VERSION_CMD_CODE = ''0e00''"

definition CONFIG_HEADER :: string where
  "CONFIG_HEADER = ''5AA5''"

definition CONFIG_FOOTER :: string where
  "CONFIG_FOOTER = ''AAEE''"

definition CONFIG_STATUS :: string where
  "CONFIG_STATUS = ''0000''"

subsection \<open>bytes.fromhex\<close>

text \<open>
  Python's \<^verbatim>\<open>bytes.fromhex\<close> reads two hexadecimal digits per byte, skips ASCII
  whitespace in front of a byte (never between the two digits of one), and raises
  \<^verbatim>\<open>ValueError\<close> on anything else.
\<close>

definition is_space :: "char \<Rightarrow> bool" where
  "is_space c = (let n = (of_char c :: nat) in n = 32 \<or> (9 \<le> n \<and> n \<le> 13))"

definition digit_value :: "char \<Rightarrow> nat option" where
  "digit_value c =
     (let n = (of_char c :: nat) in
      if 48 \<le> n \<and> n \<le> 57 then Some (n - 48)
      else if 97 \<le> n \<and> n \<le> 102 then Some (n - 87)
      else if 65 \<le> n \<and> n \<le> 70 then Some (n - 55)
      else None)"

fun fromhex :: "string \<Rightarrow> exn + byte list" where
  "fromhex [] = Inr []"
| "fromhex [c] = (if is_space c then Inr [] else Inl ValueError)"
| "fromhex (c # d # ds) =
     (if is_space c then fromhex (d # ds)
      else case (digit_value c, digit_value d) of
             (Some hi, Some lo) \<Rightarrow>
               (case fromhex ds of
                  Inl e \<Rightarrow> Inl e
                | Inr bs \<Rightarrow> Inr (of_nat (hi * 16 + lo) # bs))
           | _ \<Rightarrow> Inl ValueError)"

subsection \<open>send\_command: the message that is sent\<close>

text \<open>
  \<^verbatim>\<open>send_command(cmd, length='0000', params='')\<close> accepts a \<^verbatim>\<open>CMD\<close> member, a
  string holding a whole message in hexadecimal, or anything else, for which it raises
  \<^verbatim>\<open>ValueError\<close>. For a \<^verbatim>\<open>CMD\<close> member the message is
  \<^verbatim>\<open>bytes.fromhex(header + command_code + length + params + footer)\<close>: the length
  field is the caller's \<^verbatim>\<open>length\<close> argument.
\<close>

datatype cmd_arg = Typed CMD | Raw string | Other

fun command_message :: "cmd_arg \<Rightarrow> string \<Rightarrow> string \<Rightarrow> exn + byte list" where
  "command_message (Typed cmd) length_field params =
     fromhex (CONFIG_HEADER @ cmd_value cmd @ length_field @ params @ CONFIG_FOOTER)"
| "command_message (Raw cmd) length_field params = fromhex cmd"
| "command_message Other length_field params = Inl ValueError"

subsection \<open>Frame geometry (module constants)\<close>

record adc_params =
  chirps :: int
  rx :: int
  tx :: int
  samples :: int
  IQ :: int
  bytes :: int

definition ADC_PARAMS :: adc_params where
  "ADC_PARAMS = \<lparr>chirps = 128, rx = 4, tx = 3, samples = 128, IQ = 2, bytes = 2\<rparr>"

definition MAX_PACKET_SIZE :: int where
  "MAX_PACKET_SIZE = 4096"

definition BYTES_IN_PACKET :: int where
  "BYTES_IN_PACKET = 1456"

definition BYTES_IN_FRAME :: int where
  "BYTES_IN_FRAME =
     chirps ADC_PARAMS * rx ADC_PARAMS * tx ADC_PARAMS *
     IQ ADC_PARAMS * samples ADC_PARAMS * bytes ADC_PARAMS"

definition BYTES_IN_FRAME_CLIPPED :: int where
  "BYTES_IN_FRAME_CLIPPED = (BYTES_IN_FRAME div BYTES_IN_PACKET) * BYTES_IN_PACKET"

definition PACKETS_IN_FRAME_CLIPPED :: int where
  "PACKETS_IN_FRAME_CLIPPED = BYTES_IN_FRAME div BYTES_IN_PACKET"

definition UINT16_IN_PACKET :: int where
  "UINT16_IN_PACKET = BYTES_IN_PACKET div 2"

definition UINT16_IN_FRAME :: int where
  "UINT16_IN_FRAME = BYTES_IN_FRAME div 2"

subsection \<open>\_read\_data\_packet: decoding one datagram\<close>

text \<open>
  \<^verbatim>\<open>struct.unpack('<1l', b)\<close> wants exactly four bytes and reads them as a
  little-endian two's complement number; \<^verbatim>\<open>struct.unpack('>Q', b)\<close> wants exactly
  eight bytes and reads them as a big-endian unsigned number;
  \<^verbatim>\<open>np.frombuffer(b, dtype=np.uint16)\<close> wants an even number of bytes and reads
  them in pairs, low byte first (the byte order of the host, taken to be
  little-endian). Each raises otherwise, and \<^verbatim>\<open>_read_data_packet\<close> turns every
  exception, the socket's timeout included, into the triple of \<^verbatim>\<open>None\<close>s, here
  the \<open>None\<close> of an option. A \<open>Datagram\<close> carries the bytes that
  \<^verbatim>\<open>recvfrom(MAX_PACKET_SIZE)\<close> returned. The float \<^verbatim>\<open>PACKETS_IN_FRAME\<close> of the
  module is used nowhere and is left out.
\<close>

fun le_uint :: "byte list \<Rightarrow> int" where
  "le_uint [] = 0"
| "le_uint (b # bs) = uint b + 256 * le_uint bs"

fun be_uint :: "int \<Rightarrow> byte list \<Rightarrow> int" where
  "be_uint acc [] = acc"
| "be_uint acc (b # bs) = be_uint (acc * 256 + uint b) bs"

definition unpack_l_le :: "byte list \<Rightarrow> int option" where
  "unpack_l_le b =
     (if length b = 4
      then Some (let u = le_uint b in if u < 2 ^ 31 then u else u - 2 ^ 32)
      else None)"

definition unpack_Q_be :: "byte list \<Rightarrow> int option" where
  "unpack_Q_be b = (if length b = 8 then Some (be_uint 0 b) else None)"

fun uint16_pairs :: "byte list \<Rightarrow> 16 word list option" where
  "uint16_pairs [] = Some []"
| "uint16_pairs [b] = None"
| "uint16_pairs (lo # hi # bs) =
     (case uint16_pairs bs of
        None \<Rightarrow> None
      | Some ws \<Rightarrow> Some (word_of_int (uint lo + 256 * uint hi) # ws))"

definition packet_num_of :: "byte list \<Rightarrow> int option" where
  "packet_num_of data = unpack_l_le (take 4 data)"

definition byte_count_of :: "byte list \<Rightarrow> int option" where
  "byte_count_of data = unpack_Q_be ([0, 0] @ rev (take 6 (drop 4 data)))"

type_synonym packet = "int \<times> int \<times> 16 word list"

datatype recv = Datagram "byte list" | SocketTimeout | SocketError

fun read_data_packet :: "recv \<Rightarrow> packet option" where
  "read_data_packet (Datagram data) =
     (case packet_num_of data of
        None \<Rightarrow> None
      | Some packet_num \<Rightarrow>
          (case byte_count_of data of
             None \<Rightarrow> None
           | Some byte_count \<Rightarrow>
               (case uint16_pairs (drop 10 data) of
                  None \<Rightarrow> None
                | Some packet_data \<Rightarrow> Some (packet_num, byte_count, packet_data))))"
| "read_data_packet SocketTimeout = None"
| "read_data_packet SocketError = None"

subsection \<open>Assigning to a slice of the frame buffer\<close>

text \<open>
  \<^verbatim>\<open>ret_frame[start:stop] = packet_data\<close> on one-dimensional numpy arrays: the
  bounds are clipped to the array as Python slices are, the values must have the
  length of the slice, or length one (the value is then repeated), and anything else
  raises \<^verbatim>\<open>ValueError\<close> before a single element is written.
\<close>

type_synonym buffer = "16 word list"

definition clip_index :: "int \<Rightarrow> nat \<Rightarrow> nat" where
  "clip_index i n = (if i < 0 then nat (max 0 (i + int n)) else min (nat i) n)"

definition slice_assign :: "buffer \<Rightarrow> int \<Rightarrow> int \<Rightarrow> 16 word list \<Rightarrow> exn + buffer" where
  "slice_assign buf start stop vals =
     (let a = clip_index start (length buf);
          b = max a (clip_index stop (length buf))
      in if length vals = b - a then Inr (take a buf @ vals @ drop b buf)
         else if length vals = 1 then Inr (take a buf @ replicate (b - a) (hd vals) @ drop b buf)
         else Inl ValueError)"

subsection \<open>read: the two loops\<close>

text \<open>
  The first loop waits for a packet whose byte count is a multiple of
  \<^verbatim>\<open>BYTES_IN_FRAME_CLIPPED\<close>, writes it at the start of the buffer and sets
  \<^verbatim>\<open>packets_read = 1\<close>; the write is outside any \<^verbatim>\<open>try\<close>, so its
  \<^verbatim>\<open>ValueError\<close> leaves \<^verbatim>\<open>read\<close>. The body of the second loop counts the
  packet, returns the buffer on the next such byte count, and otherwise writes the
  packet at its slot inside \<^verbatim>\<open>try ... except: pass\<close> (\<open>write_slot\<close>, lines 178
  to 182) and wraps the counter (\<open>wrap_counter\<close>, lines 184 and 185). Python's
  \<^verbatim>\<open>%\<close> and HOL's \<open>mod\<close> agree on a positive divisor: the result is never
  negative.
\<close>

datatype start_step = Discarded | FrameStarted buffer int

datatype accum_step = FrameReady buffer int | NeedMore buffer int

fun seek_packet :: "buffer \<Rightarrow> packet \<Rightarrow> exn + start_step" where
  "seek_packet ret_frame (packet_num, byte_count, packet_data) =
     (if byte_count mod BYTES_IN_FRAME_CLIPPED = 0
      then (case slice_assign ret_frame 0 UINT16_IN_PACKET packet_data of
              Inl e \<Rightarrow> Inl e
            | Inr ret_frame' \<Rightarrow> Inr (FrameStarted ret_frame' 1))
      else Inr Discarded)"

definition write_slot :: "buffer \<Rightarrow> int \<Rightarrow> 16 word list \<Rightarrow> buffer" where
  "write_slot ret_frame packet_num packet_data =
     (let curr_idx = (packet_num - 1) mod PACKETS_IN_FRAME_CLIPPED
      in case slice_assign ret_frame (curr_idx * UINT16_IN_PACKET)
                ((curr_idx + 1) * UINT16_IN_PACKET) packet_data of
           Inl e \<Rightarrow> ret_frame
         | Inr ret_frame' \<Rightarrow> ret_frame')"

definition wrap_counter :: "int \<Rightarrow> int" where
  "wrap_counter packets_read =
     (if packets_read > PACKETS_IN_FRAME_CLIPPED then 0 else packets_read)"

fun accum_packet :: "buffer \<Rightarrow> int \<Rightarrow> packet \<Rightarrow> accum_step" where
  "accum_packet ret_frame packets_read (packet_num, byte_count, packet_data) =
     (let packets_read = packets_read + 1
      in if byte_count mod BYTES_IN_FRAME_CLIPPED = 0
         then FrameReady ret_frame (PACKETS_IN_FRAME_CLIPPED - packets_read)
         else NeedMore (write_slot ret_frame packet_num packet_data)
                       (wrap_counter packets_read))"

text \<open>
  The session object; of its fields only \<^verbatim>\<open>lost_packets\<close> is touched by
  \<^verbatim>\<open>read\<close>. It is \<^verbatim>\<open>None\<close> after \<^verbatim>\<open>__init__\<close>.
\<close>

record dca1000 =
  lost_packets :: "int option"

definition init_session :: dca1000 where
  "init_session = \<lparr>lost_packets = None\<rparr>"

text \<open>
  The source of packets is the stream of the results of the successive calls of
  \<^verbatim>\<open>_read_data_packet\<close>. Both loops are \<^verbatim>\<open>while True\<close> and end only on a
  \<^verbatim>\<open>return\<close>, an exception or, for the first, its \<^verbatim>\<open>break\<close>: on a stream that
  never offers the packet they wait for they do not return, which is the value
  \<open>None\<close> of the functions below. A returned \<open>Inr None\<close> is Python's \<^verbatim>\<open>None\<close>.
\<close>

type_synonym read_result = "(exn + buffer option) \<times> dca1000"

partial_function (option) read_rest ::
  "packet option stream \<Rightarrow> buffer \<Rightarrow> int \<Rightarrow> dca1000 \<Rightarrow> read_result option" where
  "read_rest src ret_frame packets_read self =
     (case shd src of
        None \<Rightarrow> Some (Inr None, self)
      | Some pkt \<Rightarrow>
          (case accum_packet ret_frame packets_read pkt of
             FrameReady frame lost \<Rightarrow>
               Some (Inr (Some frame), self\<lparr>lost_packets := Some lost\<rparr>)
           | NeedMore ret_frame' packets_read' \<Rightarrow>
               read_rest (stl src) ret_frame' packets_read' self))"

partial_function (option) wait_start ::
  "packet option stream \<Rightarrow> buffer \<Rightarrow> dca1000 \<Rightarrow> read_result option" where
  "wait_start src ret_frame self =
     (case shd src of
        None \<Rightarrow> Some (Inr None, self)
      | Some pkt \<Rightarrow>
          (case seek_packet ret_frame pkt of
             Inl e \<Rightarrow> Some (Inl e, self)
           | Inr Discarded \<Rightarrow> wait_start (stl src) ret_frame self
           | Inr (FrameStarted ret_frame' packets_read) \<Rightarrow>
               read_rest (stl src) ret_frame' packets_read self))"

definition zero_frame :: buffer where
  "zero_frame = replicate (nat UINT16_IN_FRAME) 0"

definition read :: "packet option stream \<Rightarrow> dca1000 \<Rightarrow> read_result option" where
  "read src self = wait_start src zero_frame self"

definition read_socket :: "recv stream \<Rightarrow> dca1000 \<Rightarrow> read_result option" where
  "read_socket events self = read (smap read_data_packet events) self"

subsection \<open>Vocabulary of the properties\<close>

text \<open>
  A packet is a frame boundary when its byte count is a multiple of
  \<^verbatim>\<open>BYTES_IN_FRAME_CLIPPED\<close>; a payload fits a slot when numpy accepts it for a
  slice of \<^verbatim>\<open>UINT16_IN_PACKET\<close> words. \<open>write_all\<close> and \<open>count_all\<close> iterate
  the buffer write and the counter update of the second loop over packets that are
  not boundaries.
\<close>

definition frame_boundary :: "packet \<Rightarrow> bool" where
  "frame_boundary pkt = (fst (snd pkt) mod BYTES_IN_FRAME_CLIPPED = 0)"

definition fits_slot :: "16 word list \<Rightarrow> bool" where
  "fits_slot packet_data =
     (int (length packet_data) = UINT16_IN_PACKET \<or> length packet_data = 1)"

fun write_all :: "buffer \<Rightarrow> packet list \<Rightarrow> buffer" where
  "write_all buf [] = buf"
| "write_all buf (pkt # pkts) = write_all (write_slot buf (fst pkt) (snd (snd pkt))) pkts"

fun count_all :: "int \<Rightarrow> nat \<Rightarrow> int" where
  "count_all c 0 = c"
| "count_all c (Suc n) = count_all (wrap_counter (c + 1)) n"

subsection \<open>Concrete packet sources\<close>

text \<open>
  A frame start followed at once by the next boundary, and a frame start followed by
  540 copies of one packet before the next boundary (542 packets in all), and a frame
  start followed by one more packet; each ends in a socket that only times out.
\<close>

definition two_boundaries :: "packet option stream" where
  "two_boundaries =
     Some (1, 0, replicate 728 5) ## Some (2, 786240, replicate 728 1) ## sconst None"

definition long_frame_packets :: "packet list" where
  "long_frame_packets =
     (1, 0, replicate 728 7) # replicate 540 (2, 1456, replicate 728 1)
       @ [(3, 786240, replicate 728 2)]"

definition long_frame :: "packet option stream" where
  "long_frame = map Some long_frame_packets @- sconst None"

definition aborted_frame :: "packet option stream" where
  "aborted_frame =
     Some (1, 0, replicate 728 5) ## Some (2, 1456, replicate 728 1) ## sconst None"

text \<open>
  The synthetic sequence of 540 packets: packet \<open>i\<close> has sequence number \<open>i\<close> and byte
  count \<open>i * BYTES_IN_PACKET\<close>, but for the last, whose byte count is given; the
  payloads are given too. \<open>synthetic_run\<close> numbers the payloads, ends the sequence on
  the byte count 786240 and lets the socket time out after it.
\<close>

definition synthetic_packet :: "(int \<Rightarrow> 16 word list) \<Rightarrow> int \<Rightarrow> int \<Rightarrow> packet" where
  "synthetic_packet payload last_count i =
     (i, if i = 540 then last_count else i * BYTES_IN_PACKET, payload i)"

definition synthetic_sequence :: "(int \<Rightarrow> 16 word list) \<Rightarrow> int \<Rightarrow> packet list" where
  "synthetic_sequence payload last_count = map (synthetic_packet payload last_count) [1..540]"

definition numbered_payload :: "int \<Rightarrow> 16 word list" where
  "numbered_payload i = replicate 728 (word_of_int i)"

definition synthetic_run :: "packet option stream" where
  "synthetic_run = map Some (synthetic_sequence numbered_payload 786240) @- sconst None"

section \<open>Properties\<close>

subsection \<open>Constants, loop unfolding, buffer lengths\<close>

lemma geometry_values:
  "BYTES_IN_FRAME = 786432" "BYTES_IN_FRAME_CLIPPED = 786240"
  "PACKETS_IN_FRAME_CLIPPED = 540" "UINT16_IN_PACKET = 728" "UINT16_IN_FRAME = 393216"
  by (simp_all add: BYTES_IN_FRAME_def BYTES_IN_FRAME_CLIPPED_def PACKETS_IN_FRAME_CLIPPED_def
      UINT16_IN_PACKET_def UINT16_IN_FRAME_def BYTES_IN_PACKET_def ADC_PARAMS_def)

lemma read_rest_None: "read_rest (None ## src) buf pr self = Some (Inr None, self)"
  by (subst read_rest.simps) simp

lemma read_rest_Some:
  "read_rest (Some pkt ## src) buf pr self =
     (case accum_packet buf pr pkt of
        FrameReady frame lost \<Rightarrow> Some (Inr (Some frame), self\<lparr>lost_packets := Some lost\<rparr>)
      | NeedMore buf' pr' \<Rightarrow> read_rest src buf' pr' self)"
  by (subst read_rest.simps) (simp split: accum_step.split)

lemma wait_start_None: "wait_start (None ## src) buf self = Some (Inr None, self)"
  by (subst wait_start.simps) simp

lemma wait_start_Some:
  "wait_start (Some pkt ## src) buf self =
     (case seek_packet buf pkt of
        Inl e \<Rightarrow> Some (Inl e, self)
      | Inr Discarded \<Rightarrow> wait_start src buf self
      | Inr (FrameStarted buf' pr) \<Rightarrow> read_rest src buf' pr self)"
  by (subst wait_start.simps) (simp split: sum.split start_step.split)

lemma length_zero_frame: "length zero_frame = 393216"
  by (simp add: zero_frame_def geometry_values)

lemma clip_index_le: "clip_index i n \<le> n"
  by (auto simp: clip_index_def)

lemma length_slice_assign:
  "slice_assign buf start stop vals = Inr buf' \<Longrightarrow> length buf' = length buf"
proof -
  define a where "a = clip_index start (length buf)"
  define b where "b = max a (clip_index stop (length buf))"
  have ab: "a \<le> b" by (simp add: b_def)
  have bn: "b \<le> length buf"
    using clip_index_le [of start "length buf"] clip_index_le [of stop "length buf"]
    by (simp add: a_def b_def)
  assume "slice_assign buf start stop vals = Inr buf'"
  then have "buf' = take a buf @ vals @ drop b buf \<and> length vals = b - a
           \<or> buf' = take a buf @ replicate (b - a) (hd vals) @ drop b buf"
    unfolding slice_assign_def Let_def a_def [symmetric] b_def [symmetric]
    by (simp split: if_splits)
  then show ?thesis using ab bn by auto
qed

lemma length_write_slot: "length (write_slot buf num vals) = length buf"
proof (cases "slice_assign buf (((num - 1) mod PACKETS_IN_FRAME_CLIPPED) * UINT16_IN_PACKET)
                (((num - 1) mod PACKETS_IN_FRAME_CLIPPED + 1) * UINT16_IN_PACKET) vals")
  case (Inl e)
  then show ?thesis by (simp add: write_slot_def)
next
  case (Inr b)
  then show ?thesis using length_slice_assign [OF Inr] by (simp add: write_slot_def)
qed

lemma length_write_all: "length (write_all buf pkts) = length buf"
  by (induction pkts arbitrary: buf) (simp_all add: length_write_slot)

lemma slot_range:
  "0 \<le> (num - 1) mod PACKETS_IN_FRAME_CLIPPED" "(num - 1) mod PACKETS_IN_FRAME_CLIPPED < 540"
  by (simp_all add: geometry_values)

text \<open>
  The slot of a packet always lies inside the buffer, so the write of the second loop
  is refused only for a payload of the wrong length.
\<close>

lemma slice_assign_slot:
  assumes "length buf = 393216" "0 \<le> idx" "idx < 540"
  shows "slice_assign buf (idx * 728) ((idx + 1) * 728) vals =
           (if length vals = 728
            then Inr (take (nat (idx * 728)) buf @ vals @ drop (nat (idx * 728) + 728) buf)
            else if length vals = 1
            then Inr (take (nat (idx * 728)) buf @ replicate 728 (hd vals)
                        @ drop (nat (idx * 728) + 728) buf)
            else Inl ValueError)"
proof -
  have a: "clip_index (idx * 728) (length buf) = nat (idx * 728)"
    using assms by (simp add: clip_index_def)
  have b: "clip_index ((idx + 1) * 728) (length buf) = nat (idx * 728) + 728"
    using assms by (simp add: clip_index_def nat_add_distrib algebra_simps)
  show ?thesis
    unfolding slice_assign_def Let_def a b by simp
qed

lemma write_slot_dropped:
  assumes "length buf = 393216" "\<not> fits_slot vals"
  shows "write_slot buf num vals = buf"
  using assms slice_assign_slot [OF assms(1) slot_range(1) slot_range(2), of num vals]
  by (simp add: write_slot_def fits_slot_def geometry_values)

subsection \<open>One packet, and runs of packets that are not boundaries\<close>

lemma seek_packet_other: "\<not> frame_boundary pkt \<Longrightarrow> seek_packet buf pkt = Inr Discarded"
  by (cases pkt) (simp add: frame_boundary_def)

lemma seek_packet_start:
  assumes "frame_boundary pkt" "fits_slot (snd (snd pkt))"
  shows "\<exists>buf. seek_packet zero_frame pkt = Inr (FrameStarted buf 1) \<and> length buf = 393216"
proof -
  obtain num bc vals where pkt: "pkt = (num, bc, vals)" by (cases pkt)
  have "slice_assign zero_frame 0 728 vals =
           (if length vals = 728 then Inr (take 0 zero_frame @ vals @ drop 728 zero_frame)
            else if length vals = 1
            then Inr (take 0 zero_frame @ replicate 728 (hd vals) @ drop 728 zero_frame)
            else Inl ValueError)"
    using slice_assign_slot [OF length_zero_frame, of 0 vals] by simp
  with assms show ?thesis
    unfolding pkt
    by (auto simp: frame_boundary_def fits_slot_def length_zero_frame geometry_values)
qed

lemma accum_packet_other:
  "\<not> frame_boundary pkt \<Longrightarrow>
   accum_packet buf pr pkt =
     NeedMore (write_slot buf (fst pkt) (snd (snd pkt))) (wrap_counter (pr + 1))"
  by (cases pkt) (simp add: frame_boundary_def)

lemma accum_packet_boundary:
  "frame_boundary pkt \<Longrightarrow>
   accum_packet buf pr pkt = FrameReady buf (PACKETS_IN_FRAME_CLIPPED - (pr + 1))"
  by (cases pkt) (simp add: frame_boundary_def)

lemma wait_start_skip:
  "\<forall>p \<in> set pkts. \<not> frame_boundary p \<Longrightarrow>
   wait_start (map Some pkts @- src) buf self = wait_start src buf self"
  by (induction pkts) (simp_all add: wait_start_Some seek_packet_other)

lemma read_rest_run:
  "\<forall>p \<in> set pkts. \<not> frame_boundary p \<Longrightarrow>
   read_rest (map Some pkts @- src) buf pr self =
   read_rest src (write_all buf pkts) (count_all pr (length pkts)) self"
  by (induction pkts arbitrary: buf pr) (simp_all add: read_rest_Some accum_packet_other)

lemma count_all_mod:
  "0 \<le> c \<Longrightarrow> c \<le> 540 \<Longrightarrow> count_all c n = (c + int n) mod 541"
proof (induction n arbitrary: c)
  case 0
  then show ?case by simp
next
  case (Suc n)
  show ?case
  proof (cases "c = 540")
    case True
    then have "count_all c (Suc n) = count_all 0 n"
      by (simp add: wrap_counter_def geometry_values)
    also have "\<dots> = (0 + int n) mod 541" by (rule Suc.IH) simp_all
    also have "\<dots> = (c + int (Suc n)) mod 541" using True
      by (simp add: mod_add_self1 add.commute)
    finally show ?thesis .
  next
    case False
    with Suc.prems have "count_all c (Suc n) = count_all (c + 1) n"
      by (simp add: wrap_counter_def geometry_values)
    also have "\<dots> = (c + 1 + int n) mod 541"
      using Suc.prems False by (intro Suc.IH) simp_all
    finally show ?thesis by (simp add: ac_simps)
  qed
qed

text \<open>
  From the call of \<^verbatim>\<open>read\<close> through the frame start and any number of further
  packets that are not boundaries: the second loop goes on with a buffer of full
  length and the wrapped count of the packets since the start.
\<close>

lemma read_run:
  assumes pre: "\<forall>p \<in> set pre. \<not> frame_boundary p"
    and start: "frame_boundary p0" "fits_slot (snd (snd p0))"
    and mids: "\<forall>p \<in> set mids. \<not> frame_boundary p"
  shows "\<exists>buf. length buf = 393216 \<and> (\<forall>src self.
           read (map Some pre @- Some p0 ## map Some mids @- src) self =
           read_rest src buf ((1 + int (length mids)) mod 541) self)"
proof -
  from seek_packet_start [OF start] obtain buf0
    where buf0: "seek_packet zero_frame p0 = Inr (FrameStarted buf0 1)" "length buf0 = 393216"
    by blast
  have "read (map Some pre @- Some p0 ## map Some mids @- src) self =
           read_rest src (write_all buf0 mids) ((1 + int (length mids)) mod 541) self" for src self
    by (simp add: read_def wait_start_skip [OF pre] wait_start_Some buf0 read_rest_run [OF mids]
        count_all_mod)
  then show ?thesis using length_write_all [of buf0 mids] buf0(2) by auto
qed

subsection \<open>The boundary packet that ends a frame\<close>

text \<open>
  C1, as the claim states it, fails: \<^verbatim>\<open>read\<close> returns on the boundary packet before
  the write. After a frame start carrying 5s, the boundary packet with sequence number
  2 and a payload of 1s ends the frame; the returned buffer holds the 5s in slot 0 and
  zeros everywhere else, slot 1 included.
\<close>

theorem boundary_packet_payload_not_written:
  "read two_boundaries init_session =
     Some (Inr (Some (replicate 728 5 @ replicate 392488 0)), \<lparr>lost_packets = Some 538\<rparr>)
   \<and> (replicate 728 (5 :: 16 word) @ replicate 392488 0) ! 728 = 0
   \<and> (replicate 728 (5 :: 16 word) @ replicate 392488 0) ! 1455 = 0"
  by (simp add: read_def two_boundaries_def wait_start_Some read_rest_Some geometry_values
      slice_assign_def clip_index_def zero_frame_def init_session_def nth_append)

text \<open>
  C1, amended: for every packet met in the second loop whose byte count is a multiple
  of \<^verbatim>\<open>BYTES_IN_FRAME_CLIPPED\<close>, the boundary test comes first and the payload is
  not written: \<^verbatim>\<open>read\<close> returns the buffer exactly as it was before this packet,
  stores \<^verbatim>\<open>PACKETS_IN_FRAME_CLIPPED\<close> minus the incremented count in
  \<^verbatim>\<open>lost_packets\<close>, and the next call of \<^verbatim>\<open>read\<close> starts again in the first loop.
\<close>

theorem boundary_packet_returns_frame_unwritten:
  assumes "frame_boundary pkt"
  shows "read_rest (Some pkt ## src) ret_frame packets_read self =
           Some (Inr (Some ret_frame),
                 self\<lparr>lost_packets := Some (PACKETS_IN_FRAME_CLIPPED - (packets_read + 1))\<rparr>)"
  using assms by (simp add: read_rest_Some accum_packet_boundary)

theorem boundary_packet_returns_frame_unwritten_witness:
  "frame_boundary (2, 786240, replicate 728 1)
   \<and> read_rest (Some (2, 786240, replicate 728 1) ## sconst None) zero_frame 1 init_session =
       Some (Inr (Some zero_frame), \<lparr>lost_packets = Some 538\<rparr>)"
proof -
  have h: "frame_boundary (2, 786240, replicate 728 1)"
    by (simp add: frame_boundary_def geometry_values)
  show ?thesis
    using h boundary_packet_returns_frame_unwritten [OF h, of "sconst None" zero_frame 1 init_session]
    by (simp add: geometry_values init_session_def)
qed

text \<open>On a socket that only times out both loops return at once.\<close>

lemma read_rest_silence: "read_rest (sconst None) buf pr self = Some (Inr None, self)"
  by (subst read_rest.simps) simp

lemma wait_start_silence: "wait_start (sconst None) buf self = Some (Inr None, self)"
  by (subst wait_start.simps) simp

subsection \<open>What holds of every result of the loops\<close>

text \<open>
  The loops are least fixed points, so a property of every returned value follows by
  fixed-point induction: it is shown for one unfolding of the body, assuming it of the
  recursive calls.
\<close>

lemmas read_rest_induct = read_rest.raw_induct [rotated 1, consumes 1, case_names step]
lemmas wait_start_induct = wait_start.raw_induct [rotated 1, consumes 1, case_names step]

lemma read_rest_never_raises:
  assumes "read_rest src buf pr self = Some y"
  shows "fst y \<noteq> Inl e"
  using assms
proof (induction rule: read_rest_induct)
  case (step f src buf pr self y)
  then show ?case
    by (auto split: option.splits accum_step.splits)
qed

lemma read_rest_keeps_session:
  assumes "read_rest src buf pr self = Some y"
  shows "(\<forall>frame. fst y \<noteq> Inr (Some frame)) \<longrightarrow> snd y = self"
  using assms
proof (induction rule: read_rest_induct)
  case (step f src buf pr self y)
  then show ?case
    by (auto split: option.splits accum_step.splits)
qed

lemma wait_start_keeps_session:
  assumes "wait_start src buf self = Some y"
  shows "(\<forall>frame. fst y \<noteq> Inr (Some frame)) \<longrightarrow> snd y = self"
  using assms
proof (induction rule: wait_start_induct)
  case (step f src buf self y)
  then show ?case
    using read_rest_keeps_session
    by (auto split: option.splits sum.splits start_step.splits)
qed

lemma read_rest_length:
  assumes "read_rest src buf pr self = Some y"
  shows "\<forall>frame. fst y = Inr (Some frame) \<longrightarrow> length frame = length buf"
  using assms
proof (induction rule: read_rest_induct)
  case (step f src buf pr self y)
  show ?case
  proof (cases "shd src")
    case None
    with step(2) show ?thesis by auto
  next
    case (Some pkt)
    show ?thesis
    proof (cases "frame_boundary pkt")
      case True
      with step(2) Some show ?thesis by (auto simp: accum_packet_boundary)
    next
      case False
      with step(2) Some
      have "f (stl src) (write_slot buf (fst pkt) (snd (snd pkt))) (wrap_counter (pr + 1)) self
              = Some y"
        by (simp add: accum_packet_other)
      from step(1) [OF this] show ?thesis by (simp add: length_write_slot)
    qed
  qed
qed

lemma seek_packet_length:
  "seek_packet buf pkt = Inr (FrameStarted buf' pr) \<Longrightarrow> length buf' = length buf"
  by (cases pkt) (auto split: if_splits sum.splits dest: length_slice_assign)

lemma wait_start_length:
  assumes "wait_start src buf self = Some y"
  shows "\<forall>frame. fst y = Inr (Some frame) \<longrightarrow> length frame = length buf"
  using assms
proof (induction rule: wait_start_induct)
  case (step f src buf self y)
  show ?case
  proof (cases "shd src")
    case None
    with step(2) show ?thesis by auto
  next
    case (Some pkt)
    show ?thesis
    proof (cases "seek_packet buf pkt")
      case (Inl e)
      with step(2) Some show ?thesis by auto
    next
      case (Inr st)
      show ?thesis
      proof (cases st)
        case Discarded
        with step(2) Some Inr have "f (stl src) buf self = Some y" by simp
        from step(1) [OF this] show ?thesis .
      next
        case (FrameStarted buf' pr)
        with step(2) Some Inr have "read_rest (stl src) buf' pr self = Some y" by simp
        from read_rest_length [OF this] seek_packet_length [of buf pkt buf' pr] Inr FrameStarted
        show ?thesis by simp
      qed
    qed
  qed
qed

subsection \<open>The length of a returned frame\<close>

text \<open>
  C3, as the claim states it, fails: the buffer is allocated with
  \<^verbatim>\<open>UINT16_IN_FRAME = BYTES_IN_FRAME // 2\<close> words, the unclipped frame. The frame
  returned for a start followed by a boundary has 393216 words, while
  \<^verbatim>\<open>BYTES_IN_FRAME_CLIPPED // 2\<close> is 393120.
\<close>

theorem returned_frame_not_clipped_length:
  "read two_boundaries init_session =
     Some (Inr (Some (replicate 728 5 @ replicate 392488 0)), \<lparr>lost_packets = Some 538\<rparr>)
   \<and> length (replicate 728 (5 :: 16 word) @ replicate 392488 0) = 393216
   \<and> BYTES_IN_FRAME_CLIPPED div 2 = 393120"
  by (simp add: read_def two_boundaries_def wait_start_Some read_rest_Some geometry_values
      slice_assign_def clip_index_def zero_frame_def init_session_def)

text \<open>
  C3, amended: every frame returned by \<^verbatim>\<open>read\<close> is a buffer of exactly
  \<^verbatim>\<open>UINT16_IN_FRAME\<close> words, which is \<^verbatim>\<open>BYTES_IN_FRAME // 2\<close>, 393216 for the
  configuration of the module.
\<close>

theorem returned_frame_has_full_frame_length:
  assumes "read src self = Some (Inr (Some frame), self')"
  shows "int (length frame) = UINT16_IN_FRAME \<and> UINT16_IN_FRAME = BYTES_IN_FRAME div 2
         \<and> UINT16_IN_FRAME = 393216"
  using wait_start_length [OF assms [unfolded read_def]]
  by (simp add: length_zero_frame geometry_values)

theorem returned_frame_has_full_frame_length_witness:
  "read two_boundaries init_session =
     Some (Inr (Some (replicate 728 5 @ replicate 392488 0)), \<lparr>lost_packets = Some 538\<rparr>)
   \<and> int (length (replicate 728 (5 :: 16 word) @ replicate 392488 0)) = UINT16_IN_FRAME
   \<and> UINT16_IN_FRAME = BYTES_IN_FRAME div 2 \<and> UINT16_IN_FRAME = 393216"
proof -
  have h: "read two_boundaries init_session =
     Some (Inr (Some (replicate 728 5 @ replicate 392488 0)), \<lparr>lost_packets = Some 538\<rparr>)"
    by (simp add: read_def two_boundaries_def wait_start_Some read_rest_Some geometry_values
      slice_assign_def clip_index_def zero_frame_def init_session_def)
  show ?thesis using h returned_frame_has_full_frame_length [OF h] by simp
qed

subsection \<open>The loss count\<close>

text \<open>
  C5, as the claim states it, fails once the counter has wrapped. In \<open>long_frame\<close>
  542 packets are read from the frame start to the closing boundary, both included;
  540 minus 542 is -2, and \<^verbatim>\<open>lost_packets\<close> is 539.
\<close>

theorem lost_packets_after_counter_wrap:
  "map_option snd (read long_frame init_session) = Some \<lparr>lost_packets = Some 539\<rparr>
   \<and> PACKETS_IN_FRAME_CLIPPED - int (length long_frame_packets) = - 2"
proof -
  have 1: "\<forall>p \<in> set ([] :: packet list). \<not> frame_boundary p" by simp
  have 2: "frame_boundary (1, 0, replicate 728 7)" by (simp add: frame_boundary_def)
  have 3: "fits_slot (snd (snd (1 :: int, 0 :: int, replicate 728 (7 :: 16 word))))"
    by (simp add: fits_slot_def geometry_values)
  have 4: "\<forall>p \<in> set (replicate 540 (2 :: int, 1456 :: int, replicate 728 (1 :: 16 word))).
             \<not> frame_boundary p"
    by (simp add: frame_boundary_def geometry_values)
  have 5: "frame_boundary (3, 786240, replicate 728 2)"
    by (simp add: frame_boundary_def geometry_values)
  from read_run [OF 1 2 3 4] obtain buf where
    "\<forall>src self. read (map Some [] @- Some (1, 0, replicate 728 7) ##
        map Some (replicate 540 (2, 1456, replicate 728 1)) @- src) self =
        read_rest src buf
          ((1 + int (length (replicate 540 (2 :: int, 1456 :: int, replicate 728 (1 :: 16 word)))))
             mod 541) self"
    by blast
  then have "read long_frame init_session =
      read_rest (Some (3, 786240, replicate 728 2) ## sconst None) buf 0 init_session"
    by (simp add: long_frame_def long_frame_packets_def)
  then show ?thesis
    by (simp add: read_rest_Some accum_packet_boundary [OF 5] geometry_values init_session_def
        long_frame_packets_def)
qed

text \<open>
  C5, amended: when \<^verbatim>\<open>read\<close> returns a frame, \<^verbatim>\<open>lost_packets\<close> is
  \<^verbatim>\<open>PACKETS_IN_FRAME_CLIPPED\<close> minus the counter, and the counter is the number of
  packets read from the frame start to the closing boundary, both included, as long as
  it has not been wrapped: with \<open>n\<close> packets between the two boundaries it is
  \<open>(1 + n) mod 541 + 1\<close>, which is \<open>n + 2\<close> up to 541 packets in all. The value is
  stored as it is; it is -1 for 541 packets.
\<close>

theorem lost_packets_from_wrapped_count:
  assumes "\<forall>p \<in> set pre. \<not> frame_boundary p"
    and "frame_boundary p0" "fits_slot (snd (snd p0))"
    and "\<forall>p \<in> set mids. \<not> frame_boundary p"
    and "frame_boundary pN"
  shows "map_option snd
           (read (map Some pre @- Some p0 ## map Some mids @- Some pN ## src) self) =
           Some (self\<lparr>lost_packets :=
             Some (PACKETS_IN_FRAME_CLIPPED
                   - ((1 + int (length mids)) mod (PACKETS_IN_FRAME_CLIPPED + 1) + 1))\<rparr>)
       \<and> (length mids + 2 \<le> 541 \<longrightarrow>
            (1 + int (length mids)) mod (PACKETS_IN_FRAME_CLIPPED + 1) + 1
              = int (length mids + 2))"
proof -
  from read_run [OF assms(1-4)] obtain buf where
    "\<forall>src self. read (map Some pre @- Some p0 ## map Some mids @- src) self =
           read_rest src buf ((1 + int (length mids)) mod 541) self"
    by blast
  then show ?thesis
    by (simp add: read_rest_Some accum_packet_boundary [OF assms(5)] geometry_values)
qed

theorem lost_packets_from_wrapped_count_witness:
  "map_option snd
     (read (map Some [(9, 2912, replicate 728 4)] @- Some (1, 0, replicate 728 7) ##
            map Some (replicate 539 (2, 1456, replicate 728 1)) @-
            Some (541, 786240, replicate 728 2) ## sconst None) init_session)
   = Some \<lparr>lost_packets = Some (- 1)\<rparr>"
proof -
  have 1: "\<forall>p \<in> set [(9 :: int, 2912 :: int, replicate 728 (4 :: 16 word))].
             \<not> frame_boundary p"
    by (simp add: frame_boundary_def geometry_values)
  have 2: "frame_boundary (1, 0, replicate 728 7)" by (simp add: frame_boundary_def)
  have 3: "fits_slot (snd (snd (1 :: int, 0 :: int, replicate 728 (7 :: 16 word))))"
    by (simp add: fits_slot_def geometry_values)
  have 4: "\<forall>p \<in> set (replicate 539 (2 :: int, 1456 :: int, replicate 728 (1 :: 16 word))).
             \<not> frame_boundary p"
    by (simp add: frame_boundary_def geometry_values)
  have 5: "frame_boundary (541, 786240, replicate 728 2)"
    by (simp add: frame_boundary_def geometry_values)
  show ?thesis
    using lost_packets_from_wrapped_count [OF 1 2 3 4 5, of "sconst None" init_session]
    by (simp add: geometry_values init_session_def)
qed

subsection \<open>The counter wrap\<close>

text \<open>
  C8: when the incremented counter exceeds \<^verbatim>\<open>PACKETS_IN_FRAME_CLIPPED\<close> on a packet
  that is not a boundary, the counter becomes 0 and nothing else differs from any other
  such packet: the loop goes on with the buffer as the packet's write left it, nothing
  is returned, and the session is untouched.
\<close>

theorem counter_wrap_changes_counter_only:
  assumes "\<not> frame_boundary pkt" "PACKETS_IN_FRAME_CLIPPED < packets_read + 1"
  shows "accum_packet ret_frame packets_read pkt =
           NeedMore (write_slot ret_frame (fst pkt) (snd (snd pkt))) 0
       \<and> read_rest (Some pkt ## src) ret_frame packets_read self =
           read_rest src (write_slot ret_frame (fst pkt) (snd (snd pkt))) 0 self"
  using assms by (simp add: read_rest_Some accum_packet_other wrap_counter_def)

theorem counter_wrap_changes_counter_only_witness:
  "accum_packet zero_frame 540 (541, 1456, replicate 728 9) =
     NeedMore (replicate 728 9 @ replicate 392488 0) 0
   \<and> read_rest (Some (541, 1456, replicate 728 9) ## sconst None) zero_frame 540 init_session =
     Some (Inr None, init_session)"
proof -
  have 1: "\<not> frame_boundary (541, 1456, replicate 728 9)"
    by (simp add: frame_boundary_def geometry_values)
  have 2: "PACKETS_IN_FRAME_CLIPPED < 540 + 1" by (simp add: geometry_values)
  have 3: "write_slot zero_frame 541 (replicate 728 9) = replicate 728 9 @ replicate 392488 0"
    by (simp add: write_slot_def slice_assign_def clip_index_def zero_frame_def geometry_values)
  show ?thesis
    using counter_wrap_changes_counter_only [OF 1 2, of zero_frame "sconst None" init_session] 3
    by (simp add: read_rest_silence)
qed

subsection \<open>A packet in the second loop never raises\<close>

text \<open>
  C7, as the claim states it, fails where the counter wraps: with 540 packets counted,
  a packet that is no boundary and whose empty payload cannot be written leaves the
  buffer as it was and the counter at 0, not at 541.
\<close>

theorem counter_not_incremented_at_wrap:
  "accum_packet zero_frame 540 (1, 1456, []) = NeedMore zero_frame 0"
  using write_slot_dropped [OF length_zero_frame, of "[]" 1]
  by (simp add: wrap_counter_def geometry_values fits_slot_def)

text \<open>
  C7, amended: for every packet met in the second loop, with any sequence number and any
  payload, nothing is raised, now or later in the loop; a payload that does not fit its
  slot is dropped and the buffer is left as it was; the counter is incremented by
  exactly 1 and then set to 0 if it exceeds \<^verbatim>\<open>PACKETS_IN_FRAME_CLIPPED\<close>; and
  whether the frame ends depends on the byte count alone.
\<close>

theorem second_loop_packet_never_raises:
  assumes "length ret_frame = 393216"
  shows "read_rest (Some (packet_num, byte_count, packet_data) ## src) ret_frame packets_read self =
     (if byte_count mod BYTES_IN_FRAME_CLIPPED = 0
      then Some (Inr (Some ret_frame),
                 self\<lparr>lost_packets := Some (PACKETS_IN_FRAME_CLIPPED - (packets_read + 1))\<rparr>)
      else read_rest src
             (if fits_slot packet_data then write_slot ret_frame packet_num packet_data
              else ret_frame)
             (if PACKETS_IN_FRAME_CLIPPED < packets_read + 1 then 0 else packets_read + 1) self)
   \<and> (\<forall>e self'. read_rest (Some (packet_num, byte_count, packet_data) ## src) ret_frame
                    packets_read self \<noteq> Some (Inl e, self'))"
proof -
  have "read_rest (Some (packet_num, byte_count, packet_data) ## src) ret_frame
                    packets_read self \<noteq> Some (Inl e, self')" for e self'
    using read_rest_never_raises [of "Some (packet_num, byte_count, packet_data) ## src" ret_frame
        packets_read self "(Inl e, self')" e]
    by auto
  moreover have "\<not> fits_slot packet_data \<Longrightarrow>
      write_slot ret_frame packet_num packet_data = ret_frame"
    by (rule write_slot_dropped [OF assms])
  ultimately show ?thesis
    by (simp add: read_rest_Some wrap_counter_def)
qed

theorem second_loop_packet_never_raises_witness:
  "read_rest (Some (1, 1456, []) ## sconst None) zero_frame 3 init_session =
     read_rest (sconst None) zero_frame 4 init_session
   \<and> read_rest (sconst None) zero_frame 4 init_session = Some (Inr None, init_session)"
  using second_loop_packet_never_raises
          [OF length_zero_frame, of 1 1456 "[]" "sconst None" 3 init_session]
  by (simp add: geometry_values fits_slot_def read_rest_silence)

subsection \<open>A read that is cut short\<close>

text \<open>
  The one exception that leaves \<^verbatim>\<open>read\<close>: a frame start whose payload does not fit
  the first slot.
\<close>

lemma read_raises_on_misfit_start:
  assumes "\<forall>p \<in> set pre. \<not> frame_boundary p"
    and "frame_boundary p0" "\<not> fits_slot (snd (snd p0))"
  shows "read (map Some pre @- Some p0 ## src) self = Some (Inl ValueError, self)"
proof -
  obtain num bc vals where pkt: "p0 = (num, bc, vals)" by (cases p0)
  have "slice_assign zero_frame 0 728 vals = Inl ValueError"
    using slice_assign_slot [OF length_zero_frame, of 0 vals] assms(3)
    by (simp add: pkt fits_slot_def geometry_values)
  with assms(2) have "seek_packet zero_frame p0 = Inl ValueError"
    by (simp add: pkt frame_boundary_def geometry_values)
  then show ?thesis
    by (simp add: read_def wait_start_skip [OF assms(1)] wait_start_Some)
qed

lemma read_aborted:
  assumes "length (filter frame_boundary pkts) \<le> 1"
    and "\<forall>p \<in> set pkts. frame_boundary p \<longrightarrow> fits_slot (snd (snd p))"
  shows "read (map Some pkts @- None ## src) self = Some (Inr None, self)"
proof (cases "\<exists>p \<in> set pkts. frame_boundary p")
  case False
  then have "\<forall>p \<in> set pkts. \<not> frame_boundary p" by simp
  then show ?thesis by (simp add: read_def wait_start_skip wait_start_None)
next
  case True
  from split_list_first_prop [OF this]
  obtain pre p0 mids where split: "pkts = pre @ p0 # mids" "frame_boundary p0"
    "\<forall>p \<in> set pre. \<not> frame_boundary p"
    by blast
  from assms(1) split have "filter frame_boundary mids = []" by simp
  then have mids: "\<forall>p \<in> set mids. \<not> frame_boundary p" by (simp add: filter_empty_conv)
  from assms(2) split have fits: "fits_slot (snd (snd p0))" by simp
  from read_run [OF split(3) split(2) fits mids] obtain buf where
    "\<forall>src self. read (map Some pre @- Some p0 ## map Some mids @- src) self =
           read_rest src buf ((1 + int (length mids)) mod 541) self"
    by blast
  then show ?thesis by (simp add: split(1) read_rest_None)
qed

text \<open>
  C6: the socket delivers datagrams that decode to the packets \<open>pkts\<close> and then an
  event that yields no packet (a timeout, an error, a datagram that does not decode).
  If no frame was completed before, that is at most one of the packets is a boundary,
  \<^verbatim>\<open>read\<close> returns \<^verbatim>\<open>None\<close>, whether the boundary was still awaited or a frame was
  under way, and the session is as before. (The payload of the frame start must fit the
  first slot: otherwise the unguarded write of the first loop raises at that packet,
  and the run never comes to the event that yields no packet.)
\<close>

theorem read_returns_None_when_source_stops:
  assumes "map read_data_packet events = map Some pkts"
    and "read_data_packet ev = None"
    and "length (filter frame_boundary pkts) \<le> 1"
    and "\<forall>p \<in> set pkts. frame_boundary p \<longrightarrow> fits_slot (snd (snd p))"
  shows "read_socket (events @- ev ## rest) self = Some (Inr None, self)"
  using read_aborted [OF assms(3,4), of "smap read_data_packet rest" self] assms(1,2)
  by (simp add: read_socket_def smap_shift)

theorem read_returns_None_when_source_stops_witness:
  "read_socket ([Datagram [1, 0, 0, 0, 0, 0, 0, 0, 0, 0, 5, 0],
                 Datagram [2, 0, 0, 0, 0xB0, 5, 0, 0, 0, 0, 1, 0]]
                @- SocketTimeout ## sconst SocketError) init_session
   = Some (Inr None, init_session)"
proof -
  have 1: "map read_data_packet [Datagram [1, 0, 0, 0, 0, 0, 0, 0, 0, 0, 5, 0],
                 Datagram [2, 0, 0, 0, 0xB0, 5, 0, 0, 0, 0, 1, 0]]
           = map Some [(1, 0, [5]), (2, 1456, [1])]"
    by (simp add: packet_num_of_def byte_count_of_def unpack_l_le_def unpack_Q_be_def)
  have 2: "read_data_packet SocketTimeout = None" by simp
  have 3: "length (filter frame_boundary [(1, 0, [5]), (2, 1456, [1])]) \<le> 1"
    by (simp add: frame_boundary_def geometry_values)
  have 4: "\<forall>p \<in> set [(1 :: int, 0 :: int, [5 :: 16 word]), (2, 1456, [1])].
             frame_boundary p \<longrightarrow> fits_slot (snd (snd p))"
    by (simp add: fits_slot_def)
  show ?thesis
    using read_returns_None_when_source_stops [OF 1 2 3 4, of "sconst SocketError" init_session]
    by simp
qed

text \<open>
  C10: a call of \<^verbatim>\<open>read\<close> that returns no frame, be it \<^verbatim>\<open>None\<close> from either loop
  or the exception of the first, leaves the session, and with it
  \<^verbatim>\<open>lost_packets\<close>, as it was.
\<close>

theorem aborted_read_keeps_lost_packets:
  assumes "read src self = Some (r, self')" "\<forall>frame. r \<noteq> Inr (Some frame)"
  shows "self' = self"
  using wait_start_keeps_session [OF assms(1) [unfolded read_def]] assms(2) by simp

theorem aborted_read_keeps_lost_packets_witness:
  "read aborted_frame \<lparr>lost_packets = Some 3\<rparr> = Some (Inr None, \<lparr>lost_packets = Some 3\<rparr>)"
proof -
  have "\<exists>s. read aborted_frame \<lparr>lost_packets = Some 3\<rparr> = Some (Inr None, s)"
    by (simp add: read_def aborted_frame_def wait_start_Some read_rest_Some geometry_values
      slice_assign_def clip_index_def zero_frame_def wrap_counter_def read_rest_silence)
  then obtain s where h: "read aborted_frame \<lparr>lost_packets = Some 3\<rparr> = Some (Inr None, s)" ..
  have "\<forall>frame. (Inr None :: exn + buffer option) \<noteq> Inr (Some frame)" by simp
  from aborted_read_keeps_lost_packets [OF h this] h show ?thesis by simp
qed

subsection \<open>The synthetic sequence of 540 packets\<close>

lemma synthetic_sequence_split:
  "synthetic_sequence payload last_count =
     map (synthetic_packet payload last_count) [1..539] @ [(540, last_count, payload 540)]"
proof -
  have "[1..540] = [1..539] @ [540::int]" using upto_rec2 [of 1 540] by simp
  then show ?thesis by (simp add: synthetic_sequence_def synthetic_packet_def)
qed

lemma synthetic_packet_inner:
  assumes "1 \<le> i" "i \<le> 539"
  shows "\<not> frame_boundary (synthetic_packet payload last_count i)"
proof -
  have "0 < i * 1456" "i * 1456 < 786240" using assms by simp_all
  then have "(i * 1456) mod 786240 = i * 1456" by simp
  with assms show ?thesis
    by (simp add: synthetic_packet_def frame_boundary_def geometry_values BYTES_IN_PACKET_def)
qed

lemma synthetic_sequence_run:
  assumes "last_count mod BYTES_IN_FRAME_CLIPPED = 0" "length (payload 540) = 728"
  shows "read (map Some (synthetic_sequence payload last_count) @- src) self =
           read_rest src (payload 540 @ replicate 392488 0) 1 self"
proof -
  have inner: "\<forall>p \<in> set (map (synthetic_packet payload last_count) [1..539]). \<not> frame_boundary p"
    by (auto simp: synthetic_packet_inner)
  have start: "seek_packet zero_frame (540, last_count, payload 540) =
                 Inr (FrameStarted (payload 540 @ replicate 392488 0) 1)"
    using assms slice_assign_slot [OF length_zero_frame, of 0 "payload 540"]
    by (simp add: geometry_values zero_frame_def)
  have eq: "map Some (synthetic_sequence payload last_count) @- src =
        map Some (map (synthetic_packet payload last_count) [1..539])
          @- Some (540, last_count, payload 540) ## src"
    by (simp add: synthetic_sequence_split)
  show ?thesis
    unfolding read_def eq wait_start_skip [OF inner] wait_start_Some start by simp
qed

text \<open>
  C2, as the claim states it, fails: the first loop discards packets 1 to 539, whose
  byte counts are no multiples of \<^verbatim>\<open>BYTES_IN_FRAME_CLIPPED\<close>, and takes packet 540
  for the start of a frame. No frame is returned; when the socket then times out,
  \<^verbatim>\<open>read\<close> returns \<^verbatim>\<open>None\<close>.
\<close>

theorem synthetic_sequence_emits_no_frame:
  "read synthetic_run init_session = Some (Inr None, init_session)"
proof -
  have 1: "(786240 :: int) mod BYTES_IN_FRAME_CLIPPED = 0" by (simp add: geometry_values)
  have 2: "length (numbered_payload 540) = 728" by (simp add: numbered_payload_def)
  show ?thesis
    unfolding synthetic_run_def synthetic_sequence_run [of _ numbered_payload, OF 1 2]
    by (rule read_rest_silence)
qed

text \<open>
  C2, amended: fed the synthetic sequence from its start, \<^verbatim>\<open>read\<close> returns no frame:
  after the 540 packets it is in its second loop with \<^verbatim>\<open>packets_read = 1\<close> and a
  buffer that holds the payload of packet 540 in slot 0 and zeros in every other slot;
  if the source then yields no packet, \<^verbatim>\<open>read\<close> returns \<^verbatim>\<open>None\<close>.
\<close>

theorem synthetic_sequence_only_starts_a_frame:
  assumes "last_count mod BYTES_IN_FRAME_CLIPPED = 0" "length (payload 540) = 728"
  shows "read (map Some (synthetic_sequence payload last_count) @- src) self =
           read_rest src (payload 540 @ replicate 392488 0) 1 self
       \<and> read (map Some (synthetic_sequence payload last_count) @- None ## src) self =
           Some (Inr None, self)"
  using synthetic_sequence_run [of last_count payload, OF assms] by (simp add: read_rest_None)

theorem synthetic_sequence_only_starts_a_frame_witness:
  "read (map Some (synthetic_sequence numbered_payload 1572480) @- None ## sconst None)
        init_session = Some (Inr None, init_session)"
proof -
  have 1: "(1572480 :: int) mod BYTES_IN_FRAME_CLIPPED = 0" by (simp add: geometry_values)
  have 2: "length (numbered_payload 540) = 728" by (simp add: numbered_payload_def)
  show ?thesis
    using synthetic_sequence_only_starts_a_frame
            [of _ numbered_payload, OF 1 2, of "sconst None" init_session]
    by simp
qed

subsection \<open>The command message\<close>

lemma fromhex_space: "is_space c \<Longrightarrow> fromhex (c # cs) = fromhex cs"
  by (cases cs) simp_all

lemma fromhex_append:
  "fromhex a = Inr x \<Longrightarrow>
   fromhex (a @ b) = (case fromhex b of Inl e \<Rightarrow> Inl e | Inr y \<Rightarrow> Inr (x @ y))"
proof (induction a arbitrary: x rule: fromhex.induct)
  case 1
  then show ?case by (simp split: sum.split)
next
  case (2 c)
  then show ?case by (simp add: fromhex_space split: if_splits sum.split)
next
  case (3 c d ds)
  show ?case
  proof (cases "is_space c")
    case True
    with 3 show ?thesis by (simp add: fromhex_space)
  next
    case False
    with "3.prems" obtain hi lo bs where
      *: "digit_value c = Some hi" "digit_value d = Some lo" "fromhex ds = Inr bs"
         "x = of_nat (hi * 16 + lo) # bs"
      by (auto split: option.splits sum.splits)
    from "3.IH"(2) [OF False _ *(1) *(2) *(3)] False * show ?thesis
      by (simp split: sum.split)
  qed
qed

lemma fromhex_header: "fromhex CONFIG_HEADER = Inr [0x5A, 0xA5]"
  by (simp add: CONFIG_HEADER_def digit_value_def is_space_def)

lemma fromhex_footer: "fromhex CONFIG_FOOTER = Inr [0xAA, 0xEE]"
  by (simp add: CONFIG_FOOTER_def digit_value_def is_space_def)

lemma fromhex_cmd_value: "\<exists>b. fromhex (cmd_value cmd) = Inr [b, 0]"
  by (cases cmd) (simp_all add: digit_value_def is_space_def)

text \<open>
  C4, as the claim states it, fails: \<^verbatim>\<open>send_command\<close> does not compute the length
  field. With the default \<^verbatim>\<open>length='0000'\<close> and one byte of parameters the message
  carries the length 0.
\<close>

theorem length_field_not_computed:
  "command_message (Typed CONFIG_FPGA_GEN_CMD_CODE) ''0000'' ''01'' =
     Inr [0x5A, 0xA5, 0x03, 0x00, 0x00, 0x00, 0x01, 0xAA, 0xEE]"
  by (simp add: CONFIG_HEADER_def CONFIG_FOOTER_def digit_value_def is_space_def)

text \<open>
  C4, amended: for every command code and every \<^verbatim>\<open>length\<close> and \<^verbatim>\<open>params\<close>
  argument that are hexadecimal strings, the message is the two header bytes, the two
  bytes of the code, the bytes of the \<^verbatim>\<open>length\<close> argument as the caller gave it,
  the bytes of \<^verbatim>\<open>params\<close> and the two footer bytes. Nothing compares the length
  field with the parameters and nothing bounds their size; the only failure is the
  \<^verbatim>\<open>ValueError\<close> of \<^verbatim>\<open>bytes.fromhex\<close>.
\<close>

theorem command_message_layout:
  assumes "fromhex length_field = Inr lb" "fromhex params = Inr pb"
  shows "command_message (Typed cmd) length_field params =
           Inr ([0x5A, 0xA5] @ projr (fromhex (cmd_value cmd)) @ lb @ pb @ [0xAA, 0xEE])
       \<and> length (projr (fromhex (cmd_value cmd))) = 2"
proof -
  obtain b where code: "fromhex (cmd_value cmd) = Inr [b, 0]"
    using fromhex_cmd_value by blast
  show ?thesis
    by (simp add: fromhex_append [OF fromhex_header] fromhex_append [OF code]
        fromhex_append [OF assms(1)] fromhex_append [OF assms(2)] fromhex_footer code)
qed

theorem command_message_layout_witness:
  "command_message (Typed CONFIG_PACKET_DATA_CMD_CODE) ''0600'' ''be05350c0000'' =
     Inr [0x5A, 0xA5, 0x0B, 0x00, 0x06, 0x00, 0xBE, 0x05, 0x35, 0x0C, 0x00, 0x00, 0xAA, 0xEE]"
proof -
  have 1: "fromhex ''0600'' = Inr [0x06, 0x00]" by (simp add: digit_value_def is_space_def)
  have 2: "fromhex ''be05350c0000'' = Inr [0xBE, 0x05, 0x35, 0x0C, 0x00, 0x00]"
    by (simp add: digit_value_def is_space_def)
  show ?thesis
    using command_message_layout [OF 1 2, of CONFIG_PACKET_DATA_CMD_CODE]
    by (simp add: digit_value_def is_space_def)
qed

text \<open>Parameters of 65536 bytes, one more than a two-byte length can count, are accepted.\<close>

lemma fromhex_zeros: "fromhex (concat (replicate n ''00'')) = Inr (replicate n 0)"
  by (induction n) (simp_all add: digit_value_def is_space_def)

lemma oversize_params_accepted:
  "command_message (Typed RECORD_START_CMD_CODE) ''0000'' (concat (replicate 65536 ''00'')) =
     Inr ([0x5A, 0xA5, 0x05, 0x00, 0x00, 0x00] @ replicate 65536 0 @ [0xAA, 0xEE])"
proof -
  have 1: "fromhex ''0000'' = Inr [0x00, 0x00]" by (simp add: digit_value_def is_space_def)
  have 2: "fromhex (cmd_value RECORD_START_CMD_CODE) = Inr [0x05, 0x00]"
    by (simp add: digit_value_def is_space_def)
  have "fromhex (CONFIG_HEADER @ cmd_value RECORD_START_CMD_CODE @ ''0000''
          @ concat (replicate 65536 ''00'') @ CONFIG_FOOTER) =
        Inr ([0x5A, 0xA5] @ [0x05, 0x00] @ [0x00, 0x00] @ replicate 65536 0 @ [0xAA, 0xEE])"
    by (simp only: fromhex_append [OF fromhex_header] fromhex_append [OF 2]
        fromhex_append [OF 1] fromhex_append [OF fromhex_zeros] fromhex_footer sum.case)
  then show ?thesis by (simp only: command_message.simps append.simps)
qed

subsection \<open>The header of a datagram\<close>

lemma le_uint_append: "le_uint (xs @ ys) = le_uint xs + 256 ^ length xs * le_uint ys"
  by (induction xs) (simp_all add: algebra_simps)

lemma le_uint_sum: "le_uint bs = (\<Sum>k<length bs. uint (bs ! k) * 256 ^ k)"
proof (induction bs)
  case Nil
  then show ?case by simp
next
  case (Cons b bs)
  have "(\<Sum>k<length (b # bs). uint ((b # bs) ! k) * 256 ^ k) =
        uint b + (\<Sum>k<length bs. uint (bs ! k) * 256 ^ Suc k)"
    by (simp add: sum.lessThan_Suc_shift del: sum.lessThan_Suc)
  also have "(\<Sum>k<length bs. uint (bs ! k) * 256 ^ Suc k) =
        256 * (\<Sum>k<length bs. uint (bs ! k) * 256 ^ k)"
    by (simp add: sum_distrib_left algebra_simps)
  finally show ?case using Cons by simp
qed

lemma le_uint_bounds: "0 \<le> le_uint bs \<and> le_uint bs < 256 ^ length bs"
proof (induction bs)
  case Nil
  then show ?case by simp
next
  case (Cons b bs)
  have "uint b < 256" using uint_bounded [of b] by simp
  moreover have "0 \<le> uint b" by simp
  moreover have "le_uint bs + 1 \<le> 256 ^ length bs" using Cons by simp
  then have "256 * (le_uint bs + 1) \<le> 256 * 256 ^ length bs" by simp
  ultimately show ?case using Cons by (simp add: algebra_simps)
qed

lemma be_uint_rev: "be_uint acc bs = acc * 256 ^ length bs + le_uint (rev bs)"
  by (induction bs arbitrary: acc) (simp_all add: le_uint_append algebra_simps)

lemma le_uint_window:
  assumes "n + m \<le> length d"
  shows "le_uint (take m (drop n d)) = (\<Sum>k<m. uint (d ! (n + k)) * 256 ^ k)"
proof -
  have len: "length (take m (drop n d)) = m" using assms by simp
  have "le_uint (take m (drop n d)) = (\<Sum>k<m. uint (take m (drop n d) ! k) * 256 ^ k)"
    using le_uint_sum [of "take m (drop n d)"] len by simp
  also have "\<dots> = (\<Sum>k<m. uint (d ! (n + k)) * 256 ^ k)"
    using assms by (intro sum.cong) simp_all
  finally show ?thesis .
qed

lemma byte_count_of_sum:
  assumes "10 \<le> length d"
  shows "byte_count_of d = Some (\<Sum>k<6. uint (d ! (4 + k)) * 256 ^ k)"
proof -
  have len: "length (take 6 (drop 4 d)) = 6" using assms by simp
  have "be_uint 0 ([0, 0] @ rev (take 6 (drop 4 d))) = le_uint (take 6 (drop 4 d))"
    by (simp add: be_uint_rev le_uint_append)
  also have "\<dots> = (\<Sum>k<6. uint (d ! (4 + k)) * 256 ^ k)"
    using assms by (intro le_uint_window) simp
  finally show ?thesis using len by (simp add: byte_count_of_def unpack_Q_be_def)
qed

lemma byte_count_bounds:
  fixes d :: "byte list"
  assumes "10 \<le> length d"
  shows "0 \<le> (\<Sum>k<6. uint (d ! (4 + k)) * 256 ^ k)"
    "(\<Sum>k<6. uint (d ! (4 + k)) * 256 ^ k) < 2 ^ 48"
proof -
  have len: "length (take 6 (drop 4 d)) = 6" using assms by simp
  have "(\<Sum>k<6. uint (d ! (4 + k)) * 256 ^ k) = le_uint (take 6 (drop 4 d))"
    using assms by (intro le_uint_window [symmetric]) simp
  with le_uint_bounds [of "take 6 (drop 4 d)"] len
  show "0 \<le> (\<Sum>k<6. uint (d ! (4 + k)) * 256 ^ k)"
    "(\<Sum>k<6. uint (d ! (4 + k)) * 256 ^ k) < 2 ^ 48"
    by simp_all
qed

lemma signed_value:
  assumes "0 \<le> u" "u < 2 ^ 32"
  shows "(if u < 2 ^ 31 then u else u - 2 ^ 32) = sint (word_of_int u :: 32 word)"
proof -
  have *: "sint (word_of_int u :: 32 word) = (u + 2 ^ 31) mod 2 ^ 32 - 2 ^ 31"
    by (simp add: int_word_sint)
  show ?thesis
  proof (cases "u < 2 ^ 31")
    case True
    with assms have "(u + 2 ^ 31) mod 2 ^ 32 = u + 2 ^ 31" by simp
    with * True show ?thesis by simp
  next
    case False
    have "u + 2 ^ 31 = (u - 2 ^ 31) + 2 ^ 32" by simp
    then have "(u + 2 ^ 31) mod 2 ^ 32 = ((u - 2 ^ 31) + 2 ^ 32) mod 2 ^ 32" by (rule arg_cong)
    also have "\<dots> = (u - 2 ^ 31) mod 2 ^ 32" by (simp only: mod_add_self2)
    also have "\<dots> = u - 2 ^ 31" using assms False by simp
    finally show ?thesis using * False by simp
  qed
qed

lemma packet_num_of_sint:
  assumes "4 \<le> length d"
  shows "packet_num_of d = Some (sint (word_of_int (\<Sum>k<4. uint (d ! k) * 256 ^ k) :: 32 word))"
proof -
  have len: "length (take 4 d) = 4" using assms by simp
  have s: "le_uint (take 4 d) = (\<Sum>k<4. uint (d ! k) * 256 ^ k)"
    using le_uint_window [of 0 4 d] assms by simp
  have b: "0 \<le> le_uint (take 4 d)" "le_uint (take 4 d) < 2 ^ 32"
    using le_uint_bounds [of "take 4 d"] len by simp_all
  have "packet_num_of d =
      Some (if le_uint (take 4 d) < 2 ^ 31 then le_uint (take 4 d)
            else le_uint (take 4 d) - 2 ^ 32)"
    using len by (simp add: packet_num_of_def unpack_l_le_def Let_def)
  also have "\<dots> = Some (sint (word_of_int (le_uint (take 4 d)) :: 32 word))"
    by (simp only: signed_value [OF b])
  finally show ?thesis unfolding s .
qed

lemma uint16_pairs_even: "uint16_pairs bs = None \<longleftrightarrow> odd (length bs)"
  by (induction bs rule: uint16_pairs.induct) (auto split: option.splits)

text \<open>
  C9: for every datagram \<open>d\<close> of at least 10 bytes the sequence number is the 32-bit
  two's complement value of the little-endian bytes \<open>d[0..3]\<close>, and the byte count,
  read big-endian from two zero bytes followed by \<open>d[4..9]\<close> reversed, is the sum of
  \<open>d[4+k] * 256^k\<close> over \<open>k\<close> from 0 to 5, at least 0 and below \<open>2^48\<close>. These are the
  fields of the packet that \<^verbatim>\<open>_read_data_packet\<close> returns, which it does when the
  payload has an even number of bytes.
\<close>

theorem header_decoding:
  fixes d :: "byte list"
  assumes "10 \<le> length d"
  shows "packet_num_of d = Some (sint (word_of_int (\<Sum>k<4. uint (d ! k) * 256 ^ k) :: 32 word))
       \<and> byte_count_of d = Some (be_uint 0 ([0, 0] @ rev (take 6 (drop 4 d))))
       \<and> be_uint 0 ([0, 0] @ rev (take 6 (drop 4 d))) = (\<Sum>k<6. uint (d ! (4 + k)) * 256 ^ k)
       \<and> 0 \<le> (\<Sum>k<6. uint (d ! (4 + k)) * 256 ^ k)
       \<and> (\<Sum>k<6. uint (d ! (4 + k)) * 256 ^ k) < 2 ^ 48
       \<and> map_option fst (read_data_packet (Datagram d)) =
           (if even (length d)
            then Some (sint (word_of_int (\<Sum>k<4. uint (d ! k) * 256 ^ k) :: 32 word)) else None)
       \<and> map_option (fst \<circ> snd) (read_data_packet (Datagram d)) =
           (if even (length d) then Some (\<Sum>k<6. uint (d ! (4 + k)) * 256 ^ k) else None)"
proof -
  have num: "packet_num_of d =
      Some (sint (word_of_int (\<Sum>k<4. uint (d ! k) * 256 ^ k) :: 32 word))"
    using assms by (intro packet_num_of_sint) simp
  have cnt: "byte_count_of d = Some (\<Sum>k<6. uint (d ! (4 + k)) * 256 ^ k)"
    by (rule byte_count_of_sum [OF assms])
  have len: "length (take 6 (drop 4 d)) = 6" using assms by simp
  from cnt len have raw: "be_uint 0 ([0, 0] @ rev (take 6 (drop 4 d))) =
      (\<Sum>k<6. uint (d ! (4 + k)) * 256 ^ k)"
    by (simp add: byte_count_of_def unpack_Q_be_def)
  have par: "uint16_pairs (drop 10 d) = None \<longleftrightarrow> odd (length d)"
    using assms by (simp add: uint16_pairs_even)
  have pkt: "map_option fst (read_data_packet (Datagram d)) =
           (if even (length d)
            then Some (sint (word_of_int (\<Sum>k<4. uint (d ! k) * 256 ^ k) :: 32 word)) else None)"
    "map_option (fst \<circ> snd) (read_data_packet (Datagram d)) =
           (if even (length d) then Some (\<Sum>k<6. uint (d ! (4 + k)) * 256 ^ k) else None)"
    using par by (auto simp: num cnt split: option.splits)
  show ?thesis
    using num cnt raw byte_count_bounds [OF assms] pkt by simp
qed

theorem header_decoding_witness:
  "packet_num_of [0xFE, 0xFF, 0xFF, 0xFF, 0xB0, 0x05, 0, 0, 0, 0x80, 7, 0] = Some (- 2)
   \<and> byte_count_of [0xFE, 0xFF, 0xFF, 0xFF, 0xB0, 0x05, 0, 0, 0, 0x80, 7, 0]
       = Some 140737488356784
   \<and> read_data_packet (Datagram [0xFE, 0xFF, 0xFF, 0xFF, 0xB0, 0x05, 0, 0, 0, 0x80, 7, 0])
       = Some (- 2, 140737488356784, [7])"
proof -
  have h: "10 \<le> length [0xFE, 0xFF, 0xFF, 0xFF, 0xB0, 0x05, 0, 0, 0, 0x80, 7, 0 :: byte]"
    by simp
  have "read_data_packet (Datagram [0xFE, 0xFF, 0xFF, 0xFF, 0xB0, 0x05, 0, 0, 0, 0x80, 7, 0])
       = Some (- 2, 140737488356784, [7])"
    by (simp add: packet_num_of_def byte_count_of_def unpack_l_le_def unpack_Q_be_def)
  moreover have "(\<Sum>k<4. uint ([0xFE, 0xFF, 0xFF, 0xFF, 0xB0, 0x05, 0, 0, 0, 0x80, 7, 0 :: byte] ! k) * 256 ^ k)
      = 4294967294"
    by (simp add: lessThan_nat_numeral lessThan_Suc)
  moreover have "(\<Sum>k<6. uint ([0xFE, 0xFF, 0xFF, 0xFF, 0xB0, 0x05, 0, 0, 0, 0x80, 7, 0 :: byte] ! (4 + k)) * 256 ^ k)
      = 140737488356784"
    by (simp add: lessThan_nat_numeral lessThan_Suc)
  ultimately show ?thesis
    using header_decoding [OF h] by simp
qed

end
